theory Spec2Isabelle
  imports Complex_Main
begin

section \<open>Elapsed-time formatting (\<open>format_time\<close>)\<close>

text \<open>
  Python integers are unbounded, so the millisecond count is an \<open>int\<close>; \<open>divmod\<close> with a
  positive divisor is floor division, which is what \<open>div\<close> and \<open>mod\<close> on \<open>int\<close> compute.
  The format specification \<open>0wd\<close> pads with zeros up to a MINIMUM width \<open>w\<close> (the sign
  counts towards the width); it never truncates.
\<close>

definition digit_char :: "nat \<Rightarrow> char" where
  "digit_char d = char_of (48 + d)"

definition is_digit :: "char \<Rightarrow> bool" where
  "is_digit c \<longleftrightarrow> (48::nat) \<le> of_char c \<and> (of_char c :: nat) \<le> 57"

definition digit_val :: "char \<Rightarrow> nat" where
  "digit_val c = of_char c - 48"

fun dec_digits :: "nat \<Rightarrow> string" where
  "dec_digits n =
     (if n < 10 then [digit_char n] else dec_digits (n div 10) @ [digit_char (n mod 10)])"

declare dec_digits.simps [simp del]

definition zfill :: "nat \<Rightarrow> string \<Rightarrow> string" where
  "zfill w s = replicate (w - length s) (CHR ''0'') @ s"

definition format_d :: "nat \<Rightarrow> int \<Rightarrow> string" where
  "format_d w n =
     (if n < 0 then CHR ''-'' # zfill (w - 1) (dec_digits (nat (- n)))
      else zfill w (dec_digits (nat n)))"

definition str_int :: "int \<Rightarrow> string" where
  "str_int n = format_d 0 n"

definition divmod :: "int \<Rightarrow> int \<Rightarrow> int \<times> int" where
  "divmod a b = (a div b, a mod b)"

definition format_time :: "int \<Rightarrow> string" where
  "format_time times_ms =
     (let (seconds, ms) = divmod times_ms 1000;
          (hours, remainder) = divmod seconds 3600;
          (minutes, seconds) = divmod remainder 60
      in format_d 2 hours @ '':'' @ format_d 2 minutes @ '':'' @ format_d 2 seconds
           @ ''.'' @ format_d 3 ms)"

text \<open>
  The pattern of the specification, \<^verbatim>\<open>^\d{2}:\d{2}:\d{2}\.\d{3}$\<close>, as a predicate on strings,
  and the specification's arithmetic parse: the four decimal fields are read back and
  recombined into milliseconds. Neither is code of the repository; both follow the
  specification's words and are compared with \<open>format_time\<close> below.
\<close>

definition matches_hms :: "string \<Rightarrow> bool" where
  "matches_hms s \<longleftrightarrow>
     length s = 12 \<and>
     list_all is_digit (take 2 s) \<and> s ! 2 = CHR '':'' \<and>
     list_all is_digit (take 2 (drop 3 s)) \<and> s ! 5 = CHR '':'' \<and>
     list_all is_digit (take 2 (drop 6 s)) \<and> s ! 8 = CHR ''.'' \<and>
     list_all is_digit (drop 9 s)"

definition parse_nat :: "string \<Rightarrow> nat" where
  "parse_nat s = foldl (\<lambda>a c. 10 * a + digit_val c) 0 s"

definition field_upto :: "char \<Rightarrow> string \<Rightarrow> string \<times> string" where
  "field_upto sep s = (takeWhile (\<lambda>c. c \<noteq> sep) s, drop 1 (dropWhile (\<lambda>c. c \<noteq> sep) s))"

definition parse_elapsed :: "string \<Rightarrow> int" where
  "parse_elapsed s =
     (let (h, r1) = field_upto (CHR '':'') s;
          (m, r2) = field_upto (CHR '':'') r1;
          (sec, ms) = field_upto (CHR ''.'') r2
      in int (((parse_nat h * 60 + parse_nat m) * 60 + parse_nat sec) * 1000 + parse_nat ms))"

section \<open>Data model\<close>

text \<open>
  A frame is a pixel buffer, identified here by a number, together with the texts that
  \<open>cv2.putText\<close> has drawn on it and where. \<open>draw_timestamp\<close> mutates the buffer in place;
  the model returns the changed frame.
\<close>

record frame =
  pixels :: nat
  stamps :: "(string \<times> int \<times> int) list"

definition draw_timestamp :: "frame \<Rightarrow> string \<Rightarrow> frame" where
  "draw_timestamp frame timestamp_text =
     (let text_origin = (10, 30)
      in frame\<lparr>stamps := stamps frame @ [(timestamp_text, text_origin)]\<rparr>)"

text \<open>
  The camera handle (\<open>cv2.VideoCapture\<close> on a device). \<open>release_count\<close> counts the calls of
  \<open>release()\<close> made on the handle.
\<close>

record capture =
  is_opened :: bool
  release_count :: nat

datatype level = INFO | WARNING | ERROR

text \<open>
  Everything outside the object: the log, the video containers on disk (path to the frames
  handed to \<open>writer.write\<close>, in order; encoder and decoder are taken to be lossless), the
  directories, the still images written by \<open>cv2.imwrite\<close> in the order of the calls, and
  the number of \<open>release()\<close> calls made on file readers.
\<close>

record world =
  log :: "(level \<times> string) list"
  videos :: "string \<rightharpoonup> frame list"
  dirs :: "string list"
  images :: "(string \<times> frame) list"
  reader_releases :: nat

definition emit :: "level \<Rightarrow> string \<Rightarrow> world \<Rightarrow> world" where
  "emit lv msg w = w\<lparr>log := log w @ [(lv, msg)]\<rparr>"

text \<open>The attributes of a \<open>USBRecord\<close> object, as \<open>__init__\<close> declares them.\<close>

record usb_record =
  device_index :: int
  frame_resolution :: "int \<times> int"
  frame_rate :: int
  camera :: "capture option"
  is_stop_record :: bool
  act_frame_width :: "int option"
  act_frame_height :: "int option"
  act_frame_fps :: "int option"
  record_mark :: bool
  start_mark_time :: "real option"
  record_name :: "string option"
  filename :: "string option"
  save_path :: "string option"

definition init :: "int \<Rightarrow> int \<times> int \<Rightarrow> int \<Rightarrow> bool \<Rightarrow> bool \<Rightarrow> usb_record" where
  "init dev_index resolution rate stop_flag mark_flag =
     \<lparr>device_index = dev_index, frame_resolution = resolution, frame_rate = rate,
      camera = None, is_stop_record = stop_flag,
      act_frame_width = None, act_frame_height = None, act_frame_fps = None,
      record_mark = mark_flag, start_mark_time = None,
      record_name = None, filename = None, save_path = None\<rparr>"

text \<open>\<open>os.path.join\<close> of two components (POSIX).\<close>

definition path_join :: "string \<Rightarrow> string \<Rightarrow> string" where
  "path_join a b =
     (if b \<noteq> [] \<and> hd b = CHR ''/'' then b
      else if a = [] \<or> last a = CHR ''/'' then a @ b
      else a @ ''/'' @ b)"

text \<open>How an f-string renders a value that may be \<open>None\<close>.\<close>

definition str_opt :: "string option \<Rightarrow> string" where
  "str_opt x = (case x of None \<Rightarrow> ''None'' | Some s \<Rightarrow> s)"

definition str_int_opt :: "int option \<Rightarrow> string" where
  "str_int_opt x = (case x of None \<Rightarrow> ''None'' | Some n \<Rightarrow> str_int n)"

text \<open>Python's \<open>int()\<close> of a float truncates towards zero.\<close>

definition py_int :: "real \<Rightarrow> int" where
  "py_int x = (if 0 \<le> x then \<lfloor>x\<rfloor> else \<lceil>x\<rceil>)"

section \<open>Opening the camera\<close>

text \<open>
  What the driver answers: whether the constructor opened the device, whether the second
  explicit \<open>open\<close> did, and the parameters read back after the settings were applied.
  The handle is a fresh one. Exceptions of the driver are not modelled.
\<close>

record device =
  ctor_opens :: bool
  reopen_opens :: bool
  got_width :: int
  got_height :: int
  got_fps :: int

definition open_record_camera :: "device \<Rightarrow> usb_record \<times> world \<Rightarrow> usb_record \<times> world" where
  "open_record_camera dev st =
     (let (s, w) = st;
          cam = \<lparr>is_opened = ctor_opens dev, release_count = 0\<rparr>;
          cam = (if \<not> is_opened cam then cam\<lparr>is_opened := reopen_opens dev\<rparr> else cam);
          s = s\<lparr>camera := Some cam,
                act_frame_width := Some (got_width dev),
                act_frame_height := Some (got_height dev),
                act_frame_fps := Some (got_fps dev)\<rparr>
      in (s, emit INFO (''Current Camera with configuration: index: '' @ str_int (device_index s)
                @ '', resolution: '' @ str_int (got_width dev) @ ''x'' @ str_int (got_height dev)
                @ '', frame rate: '' @ str_int (got_fps dev) @ ''fps'') w))"

section \<open>The recording loop\<close>

text \<open>
  The loop of \<open>start_record\<close> runs on its own thread while the controlling thread may call
  \<open>start_time_mark\<close> and \<open>stop_record\<close>. Nothing synchronises the two, so the model
  interleaves single assignments of the controlling thread with the loop: \<open>MarkOn\<close> is
  line 306 (\<open>self.record_mark = True\<close>), \<open>AnchorClear\<close> is line 307
  (\<open>self.start_mark_time = None\<close>), \<open>StopFlag\<close> is line 317 (\<open>self.is_stop_record = True\<close>).

  An iteration reads \<open>record_mark\<close> (line 276), tests the anchor (line 277), reads it again
  (line 279) and reads the stop flag (line 288). Each iteration receives in \<open>calls\<close> the
  assignments that land before its first read. One more placement shows in what the loop
  does: line 307 landing after the test of line 277 (and the assignment of line 278) and
  before the subtraction of line 279, which is \<open>clear_mid\<close>; it matters only in an
  iteration that reaches that block. Every other placement gives what some placement in
  \<open>calls\<close> of this or the next iteration gives: a stop flag set anywhere before line 288 is
  read there, and an assignment landing after the last read it could change waits for the
  next iteration.

  Each iteration also receives the result of \<open>camera.read()\<close> and the three clock readings
  it may take (\<open>time.time()\<close> on lines 278, 279 and 285). Clock readings are exact reals;
  floating-point rounding is not modelled.
\<close>

datatype ctl = MarkOn | AnchorClear | StopFlag

record tick =
  calls :: "ctl list"
  grab :: "frame option"
  t_anchor :: real
  clear_mid :: bool
  t_stamp :: real
  t_check :: real

text \<open>\<open>start_time_mark\<close> run without interruption: its two assignments, in their order.\<close>

definition start_time_mark :: "usb_record \<Rightarrow> usb_record" where
  "start_time_mark s =
     (let s = s\<lparr>record_mark := True\<rparr>;
          s = s\<lparr>start_mark_time := None\<rparr>
      in s)"

text \<open>The first statement of \<open>stop_record\<close>: the only thing the loop can see of it.\<close>

definition request_stop :: "usb_record \<Rightarrow> usb_record" where
  "request_stop s = s\<lparr>is_stop_record := True\<rparr>"

fun apply_ctl :: "ctl \<Rightarrow> usb_record \<Rightarrow> usb_record" where
  "apply_ctl MarkOn s = s\<lparr>record_mark := True\<rparr>"
| "apply_ctl AnchorClear s = s\<lparr>start_mark_time := None\<rparr>"
| "apply_ctl StopFlag s = request_stop s"

text \<open>What stays fixed while the loop runs: the local variables of \<open>start_record\<close>.\<close>

record loop_ctx =
  lc_filename :: string
  lc_saved_as :: string
  lc_start_time :: real
  lc_timeout :: real

definition written :: "world \<Rightarrow> string \<Rightarrow> frame list" where
  "written w fn = (case videos w fn of None \<Rightarrow> [] | Some fs \<Rightarrow> fs)"

definition writer_write :: "string \<Rightarrow> frame \<Rightarrow> world \<Rightarrow> world" where
  "writer_write fn frame w = w\<lparr>videos := (videos w)(fn \<mapsto> written w fn @ [frame])\<rparr>"

text \<open>
  The overlay part of an iteration (the block under \<open>if self.record_mark\<close>). When the
  anchor is cleared between lines 278 and 279 the subtraction meets \<open>None\<close> and raises
  \<open>TypeError\<close>: no frame comes out of the block.
\<close>

definition label_frame :: "usb_record \<Rightarrow> tick \<Rightarrow> frame \<Rightarrow> usb_record \<times> frame option" where
  "label_frame s tk frame =
     (if record_mark s then
        (let anchor = (case start_mark_time s of None \<Rightarrow> t_anchor tk | Some a \<Rightarrow> a);
             s = s\<lparr>start_mark_time := Some anchor\<rparr>
         in if clear_mid tk then (s\<lparr>start_mark_time := None\<rparr>, None)
            else
              (let current_time = t_stamp tk - anchor;
                   timestamp_text = format_time (py_int (current_time * 1000))
               in (s, Some (draw_timestamp frame timestamp_text))))
      else (s, Some frame))"

datatype 'a step = Next 'a | Break 'a

fun step_state :: "'a step \<Rightarrow> 'a" where
  "step_state (Next x) = x"
| "step_state (Break x) = x"

text \<open>
  One pass through the body of \<open>while True\<close>. A camera attribute that is \<open>None\<close> makes
  \<open>self.camera.read()\<close> raise \<open>AttributeError\<close>; that and the \<open>TypeError\<close> of the overlay
  block are caught by the handler around the loop, which logs and lets the call return.
  A handle that is not open yields no frame.
\<close>

definition loop_body :: "loop_ctx \<Rightarrow> usb_record \<times> world \<Rightarrow> tick \<Rightarrow> (usb_record \<times> world) step" where
  "loop_body c st tk =
     (let (s, w) = st;
          s = fold apply_ctl (calls tk) s
      in case camera s of
           None \<Rightarrow> Break (s, emit ERROR ''Error capturing and saving image: AttributeError'' w)
         | Some cam \<Rightarrow>
            (case (if is_opened cam then grab tk else None) of
               Some frame \<Rightarrow>
                 (case label_frame s tk frame of
                    (s, None) \<Rightarrow>
                      Break (s, emit ERROR ''Error capturing and saving image: TypeError'' w)
                  | (s, Some frame) \<Rightarrow>
                      (let w = writer_write (lc_filename c) frame w;
                           current_time = t_check tk;
                           elapsed_time = current_time - lc_start_time c
                       in if is_stop_record s \<or> elapsed_time \<ge> lc_timeout c
                          then Break (s, emit INFO (''Video saved as: '' @ lc_saved_as c @ ''.avi'')
                                           (emit INFO ''Stop record'' w))
                          else Next (s, w)))
             | None \<Rightarrow> Next (s, emit WARNING ''Failed to capture image from camera.'' w)))"

text \<open>
  The loop itself. It may run forever, so it is run against a finite list of iterations:
  \<open>Done\<close> is the loop left (the function returns), \<open>Pending\<close> is the loop still inside
  \<open>while True\<close> after all the iterations supplied.
\<close>

datatype 'a run = Done 'a | Pending 'a

fun run_state :: "'a run \<Rightarrow> 'a" where
  "run_state (Done x) = x"
| "run_state (Pending x) = x"

fun is_done :: "'a run \<Rightarrow> bool" where
  "is_done (Done x) = True"
| "is_done (Pending x) = False"

fun record_loop :: "loop_ctx \<Rightarrow> usb_record \<times> world \<Rightarrow> tick list \<Rightarrow> (usb_record \<times> world) run" where
  "record_loop c st [] = Pending st"
| "record_loop c st (tk # tks) =
     (case loop_body c st tk of
        Break st' \<Rightarrow> Done st'
      | Next st' \<Rightarrow> record_loop c st' tks)"

text \<open>
  An iteration that cannot leave the loop: the controlling thread has not asked to stop,
  the anchor is not cleared under the overlay block, and either no frame arrives or the
  clock is still short of the timeout.
\<close>

definition keeps_running :: "loop_ctx \<Rightarrow> tick \<Rightarrow> bool" where
  "keeps_running c tk \<longleftrightarrow>
     StopFlag \<notin> set (calls tk) \<and> \<not> clear_mid tk \<and>
     (grab tk = None \<or> t_check tk - lc_start_time c < lc_timeout c)"

section \<open>\<open>start_record\<close>\<close>

text \<open>
  The environment of one call: the driver's answer should the camera have to be opened,
  the result of \<open>time.strftime\<close>, the clock at loop entry, and the iterations.
  \<open>os.path.join\<close> with a \<open>save_path\<close> of \<open>None\<close> and \<open>cv2.VideoWriter\<close> with parameters that
  are \<open>None\<close> raise \<open>TypeError\<close> inside the \<open>try\<close>; the handler logs and the call returns.
  In a logged line the text of an exception is stood for by the name of its class. The
  writer is taken to open, and \<open>read\<close> and \<open>write\<close> not to raise.
\<close>

record rec_env =
  dev :: device
  now_time :: string
  t_start :: real
  ticks :: "tick list"

definition start_record_reset :: "string option \<Rightarrow> usb_record \<Rightarrow> usb_record" where
  "start_record_reset path s = s\<lparr>record_mark := False, is_stop_record := False, save_path := path\<rparr>"

definition ensure_camera :: "device \<Rightarrow> usb_record \<times> world \<Rightarrow> usb_record \<times> world" where
  "ensure_camera d st =
     (let (s, w) = st;
          closed = (case camera s of None \<Rightarrow> True | Some cam \<Rightarrow> \<not> is_opened cam)
      in if closed
         then open_record_camera d (s, emit WARNING ''Camera is not opened. Trying to open it...'' w)
         else (s, w))"

definition start_record ::
  "string option \<Rightarrow> string option \<Rightarrow> int option \<Rightarrow> real \<Rightarrow> rec_env \<Rightarrow> usb_record \<times> world
     \<Rightarrow> (usb_record \<times> world) run" where
  "start_record path test_case_name count timeout env st =
     (let (s, w) = st;
          s = start_record_reset path s;
          (s, w) = ensure_camera (dev env) (s, w);
          name = str_opt test_case_name @ ''_'' @ now_time env @ ''_'' @ str_int_opt count;
          s = s\<lparr>record_name := Some name\<rparr>
      in case save_path s of
           None \<Rightarrow> Done (s, emit ERROR ''Error capturing and saving image: TypeError'' w)
         | Some sp \<Rightarrow>
            (let fn = path_join sp (name @ ''.avi'');
                 s = s\<lparr>filename := Some fn\<rparr>
             in if act_frame_fps s = None \<or> act_frame_width s = None \<or> act_frame_height s = None
                then Done (s, emit ERROR ''Error capturing and saving image: TypeError'' w)
                else
                  (let w = w\<lparr>videos := (videos w)(fn \<mapsto> [])\<rparr>;
                       w = emit INFO ''Start recording'' w
                   in record_loop
                        \<lparr>lc_filename = fn, lc_saved_as = name,
                         lc_start_time = t_start env, lc_timeout = timeout\<rparr>
                        (s, w) (ticks env))))"

section \<open>\<open>stop_record\<close>\<close>

text \<open>
  What \<open>target.join()\<close> and the log line after it do: return, or raise one of the three
  kinds of exception the handlers tell apart, each with its message.
\<close>

datatype join_result =
  Joined int string
| JoinAttributeError string
| JoinRuntimeError string
| JoinOtherException string

definition stop_record :: "join_result \<Rightarrow> usb_record \<times> world \<Rightarrow> usb_record \<times> world" where
  "stop_record target st =
     (let (s, w) = st;
          s = request_stop s
      in case target of
           Joined ident name \<Rightarrow>
             (s, emit INFO (''Thread closed: ID='' @ str_int ident @ '', Target='' @ name) w)
         | JoinAttributeError e \<Rightarrow> (s, emit ERROR (''Invalid thread object: '' @ e) w)
         | JoinRuntimeError e \<Rightarrow> (s, emit ERROR (''Error when joining thread: '' @ e) w)
         | JoinOtherException e \<Rightarrow> (s, emit ERROR (''Unexpected error: '' @ e) w))"

section \<open>\<open>video_slice\<close>\<close>

text \<open>
  How a call ends: it returns a value (a function without \<open>return\<close> returns \<open>None\<close>), it
  leaves through \<open>sys.exit\<close>, or an exception escapes it. \<open>SystemExit\<close> is not an
  \<open>Exception\<close>, so \<open>except Exception\<close> lets it pass; \<open>finally\<close> runs on every path.
  A path attribute that is \<open>None\<close> makes \<open>os.path.join\<close> raise \<open>TypeError\<close> before the
  \<open>try\<close>. A \<open>filename\<close> of \<open>None\<close> beside paths that are set does not arise from
  \<open>start_record\<close>; there the reader is never bound and \<open>finally\<close> fails on it.
  \<open>cv2.imwrite\<close> is taken to succeed.
\<close>

datatype pyval = PyNone | PyInt int

datatype outcome = Returned pyval | SystemExit int | Raised string

definition frame_path :: "string \<Rightarrow> string \<Rightarrow> nat \<Rightarrow> string" where
  "frame_path sub_record_dir_path name frame_count =
     path_join sub_record_dir_path (name @ ''_frame_count_'' @ str_int (int frame_count) @ ''.jpg'')"

text \<open>
  The read loop: the frames the container still holds, the counter, and the images written
  so far. The reader's \<open>read()\<close> fails exactly when no frame is left.
\<close>

fun slice_frames ::
  "string \<Rightarrow> string \<Rightarrow> nat \<Rightarrow> frame list \<Rightarrow> (string \<times> frame) list \<Rightarrow> (string \<times> frame) list \<times> nat" where
  "slice_frames sub name frame_count [] imgs = (imgs, frame_count)"
| "slice_frames sub name frame_count (frame # rest) imgs =
     slice_frames sub name (frame_count + 1) rest (imgs @ [(frame_path sub name frame_count, frame)])"

definition video_slice :: "usb_record \<times> world \<Rightarrow> outcome \<times> world" where
  "video_slice st =
     (let (s, w) = st
      in case (save_path s, record_name s) of
           (Some sp, Some name) \<Rightarrow>
             (let sub_record_dir_path = path_join sp name;
                  w = (if sub_record_dir_path \<in> set (dirs w) then w
                       else w\<lparr>dirs := dirs w @ [sub_record_dir_path]\<rparr>)
              in case filename s of
                   None \<Rightarrow>
                     (Raised ''AttributeError'',
                      emit ERROR ''An error occurred during processing: TypeError'' w)
                 | Some fn \<Rightarrow>
                    (case videos w fn of
                       None \<Rightarrow>
                         (SystemExit 1,
                          (emit ERROR ''Failed to open video file.'' w)
                            \<lparr>reader_releases := reader_releases w + 1\<rparr>)
                     | Some frames \<Rightarrow>
                         (let (imgs, frame_count) =
                                slice_frames sub_record_dir_path name 0 frames (images w);
                              w = w\<lparr>images := imgs\<rparr>;
                              w = emit INFO (''Record has been sliced: '' @ sub_record_dir_path) w
                          in (Returned PyNone, w\<lparr>reader_releases := reader_releases w + 1\<rparr>))))
         | _ \<Rightarrow> (Raised ''TypeError'', w))"

section \<open>\<open>release_camera\<close>\<close>

text \<open>
  \<open>if self.camera\<close> tests the attribute for truth: \<open>None\<close> is false, a handle object is
  true whether or not it is open. The attribute is not changed.
\<close>

definition release_camera :: "usb_record \<times> world \<Rightarrow> usb_record \<times> world" where
  "release_camera st =
     (let (s, w) = st
      in case camera s of
           None \<Rightarrow> (s, w)
         | Some cam \<Rightarrow>
             (s\<lparr>camera := Some (cam\<lparr>is_opened := False, release_count := release_count cam + 1\<rparr>)\<rparr>,
              emit INFO ''Camera resources have been released.'' w))"

definition del :: "usb_record \<times> world \<Rightarrow> usb_record \<times> world" where
  "del st = release_camera st"

section \<open>Sample values\<close>

definition w0 :: world where
  "w0 = \<lparr>log = [], videos = Map.empty, dirs = [''out''], images = [], reader_releases = 0\<rparr>"

definition cam0 :: capture where
  "cam0 = \<lparr>is_opened = True, release_count = 0\<rparr>"

definition s0 :: usb_record where
  "s0 = (init 0 (1280, 720) 60 False False)
          \<lparr>camera := Some cam0, act_frame_width := Some 1280, act_frame_height := Some 720,
           act_frame_fps := Some 30\<rparr>"

definition c0 :: loop_ctx where
  "c0 = \<lparr>lc_filename = ''out/t_1.avi'', lc_saved_as = ''t_1'', lc_start_time = 100, lc_timeout = 60\<rparr>"

definition fr :: "nat \<Rightarrow> frame" where
  "fr k = \<lparr>pixels = k, stamps = []\<rparr>"

definition tick_fail :: tick where
  "tick_fail = \<lparr>calls = [], grab = None, t_anchor = 0, clear_mid = False, t_stamp = 0, t_check = 0\<rparr>"

definition tick_ok :: "nat \<Rightarrow> real \<Rightarrow> tick" where
  "tick_ok k t =
     \<lparr>calls = [], grab = Some (fr k), t_anchor = t, clear_mid = False, t_stamp = t, t_check = t\<rparr>"

definition dev0 :: device where
  "dev0 = \<lparr>ctor_opens = True, reopen_opens = True, got_width = 1280, got_height = 720, got_fps = 30\<rparr>"

definition env0 :: rec_env where
  "env0 = \<lparr>dev = dev0, now_time = ''20240426_214100'', t_start = 100, ticks = []\<rparr>"

definition s_rec :: usb_record where
  "s_rec = s0\<lparr>record_name := Some ''t_1'', filename := Some ''out/t_1.avi'', save_path := Some ''out''\<rparr>"

definition w_rec :: world where
  "w_rec = w0\<lparr>videos := [''out/t_1.avi'' \<mapsto> [fr 0, fr 1]]\<rparr>"

section \<open>Formatting: digits, fields and the round trip\<close>

lemma is_digit_digit_char: "d < 10 \<Longrightarrow> is_digit (digit_char d)"
  by (simp add: is_digit_def digit_char_def)

lemma digit_val_digit_char: "d < 10 \<Longrightarrow> digit_val (digit_char d) = d"
  by (simp add: digit_val_def digit_char_def)

lemma is_digit_zero: "is_digit (CHR ''0'')"
  by (simp add: is_digit_def)

lemma digit_val_zero: "digit_val (CHR ''0'') = 0"
  by (simp add: digit_val_def)

lemma is_digit_not_sep: "is_digit c \<Longrightarrow> c \<noteq> CHR '':'' \<and> c \<noteq> CHR ''.''"
  by (auto simp: is_digit_def)

lemma dec_digits_all_digit: "list_all is_digit (dec_digits n)"
proof (induction n rule: dec_digits.induct)
  case (1 n)
  show ?case
  proof (cases "n < 10")
    case True
    then show ?thesis by (simp add: dec_digits.simps [of n] is_digit_digit_char)
  next
    case False
    with 1 show ?thesis by (simp add: dec_digits.simps [of n] is_digit_digit_char)
  qed
qed

lemma parse_nat_snoc: "parse_nat (s @ [c]) = 10 * parse_nat s + digit_val c"
  by (simp add: parse_nat_def)

lemma parse_nat_dec_digits: "parse_nat (dec_digits n) = n"
proof (induction n rule: dec_digits.induct)
  case (1 n)
  show ?case
  proof (cases "n < 10")
    case True
    then show ?thesis by (simp add: dec_digits.simps [of n] parse_nat_def digit_val_digit_char)
  next
    case False
    with 1 show ?thesis
      by (simp add: dec_digits.simps [of n] parse_nat_snoc digit_val_digit_char)
  qed
qed

lemma parse_nat_zeros: "parse_nat (replicate k (CHR ''0'') @ s) = parse_nat s"
proof (induction k)
  case 0
  then show ?case by simp
next
  case (Suc k)
  have "parse_nat (CHR ''0'' # t) = parse_nat t" for t
  proof (induction t rule: rev_induct)
    case Nil
    then show ?case by (simp add: parse_nat_def digit_val_zero)
  next
    case (snoc x xs)
    have "parse_nat (CHR ''0'' # xs @ [x]) = parse_nat ((CHR ''0'' # xs) @ [x])" by simp
    also have "\<dots> = 10 * parse_nat (CHR ''0'' # xs) + digit_val x" by (rule parse_nat_snoc)
    finally show ?case using snoc by (simp add: parse_nat_snoc)
  qed
  with Suc show ?case by simp
qed

lemma parse_nat_zfill: "parse_nat (zfill w (dec_digits n)) = n"
  by (simp add: zfill_def parse_nat_zeros parse_nat_dec_digits)

lemma zfill_all_digit: "list_all is_digit (zfill w (dec_digits n))"
  using dec_digits_all_digit [of n] by (auto simp: zfill_def is_digit_zero list_all_iff)

lemma length_dec_digits_lt10: "n < 10 \<Longrightarrow> length (dec_digits n) = 1"
  by (simp add: dec_digits.simps [of n])

lemma length_dec_digits_lt100: "10 \<le> n \<Longrightarrow> n < 100 \<Longrightarrow> length (dec_digits n) = 2"
  by (simp add: dec_digits.simps [of n] length_dec_digits_lt10)

lemma length_dec_digits_lt1000: "100 \<le> n \<Longrightarrow> n < 1000 \<Longrightarrow> length (dec_digits n) = 3"
  by (simp add: dec_digits.simps [of n] length_dec_digits_lt100)

lemma length_dec_digits_ge100: "100 \<le> n \<Longrightarrow> 3 \<le> length (dec_digits n)"
proof (induction n rule: dec_digits.induct)
  case (1 n)
  show ?case
  proof (cases "n < 1000")
    case True
    with 1 show ?thesis by (simp add: length_dec_digits_lt1000)
  next
    case False
    then have "100 \<le> n div 10" by simp
    with 1 False have "3 \<le> length (dec_digits (n div 10))" by simp
    with False show ?thesis by (simp add: dec_digits.simps [of n])
  qed
qed

lemma length_zfill2: "n < 100 \<Longrightarrow> length (zfill 2 (dec_digits n)) = 2"
  by (cases "n < 10") (simp_all add: zfill_def length_dec_digits_lt10 length_dec_digits_lt100)

lemma length_zfill3: "n < 1000 \<Longrightarrow> length (zfill 3 (dec_digits n)) = 3"
proof -
  assume "n < 1000"
  then consider "n < 10" | "10 \<le> n \<and> n < 100" | "100 \<le> n \<and> n < 1000" by linarith
  then show ?thesis
    by cases
      (simp_all add: zfill_def length_dec_digits_lt10 length_dec_digits_lt100
        length_dec_digits_lt1000)
qed

lemma length_zfill2_ge100: "100 \<le> n \<Longrightarrow> 3 \<le> length (zfill 2 (dec_digits n))"
  using length_dec_digits_ge100 [of n] by (simp add: zfill_def)

lemma field_upto_digits:
  "list_all is_digit a \<Longrightarrow> sep = CHR '':'' \<or> sep = CHR ''.'' \<Longrightarrow>
     field_upto sep (a @ sep # r) = (a, r)"
proof -
  assume a: "list_all is_digit a" and s: "sep = CHR '':'' \<or> sep = CHR ''.''"
  have "\<And>c. c \<in> set a \<Longrightarrow> c \<noteq> sep"
    using a s is_digit_not_sep by (auto simp: list_all_iff)
  then have "takeWhile (\<lambda>c. c \<noteq> sep) (a @ sep # r) = a"
    and "dropWhile (\<lambda>c. c \<noteq> sep) (a @ sep # r) = sep # r"
    by (simp_all add: takeWhile_append2 dropWhile_append2)
  then show ?thesis by (simp add: field_upto_def)
qed

lemma format_time_nonneg:
  assumes "0 \<le> t"
  shows "format_time t =
     zfill 2 (dec_digits (nat t div 1000 div 3600)) @ CHR '':'' #
     zfill 2 (dec_digits (nat t div 1000 mod 3600 div 60)) @ CHR '':'' #
     zfill 2 (dec_digits (nat t div 1000 mod 3600 mod 60)) @ CHR ''.'' #
     zfill 3 (dec_digits (nat t mod 1000))"
proof -
  obtain n where t: "t = int n" using assms by (metis nat_0_le)
  have d: "int n div 1000 div 3600 = int (n div 1000 div 3600)"
    "int n div 1000 mod 3600 div 60 = int (n div 1000 mod 3600 div 60)"
    "int n div 1000 mod 3600 mod 60 = int (n div 1000 mod 3600 mod 60)"
    "int n mod 1000 = int (n mod 1000)"
    by (simp_all add: zdiv_int zmod_int)
  show ?thesis
    unfolding t format_time_def divmod_def Let_def prod.case d format_d_def
    by simp
qed

lemma length2_shape: "length xs = 2 \<Longrightarrow> \<exists>a b. xs = [a, b]"
  by (auto simp: numeral_2_eq_2 length_Suc_conv)

lemma length3_shape: "length xs = 3 \<Longrightarrow> \<exists>a b c. xs = [a, b, c]"
  by (auto simp: numeral_3_eq_3 length_Suc_conv)

lemma matches_hms_fields:
  assumes "list_all is_digit h" "list_all is_digit m" "list_all is_digit sc" "list_all is_digit ms"
    and "length m = 2" "length sc = 2" "length ms = 3"
  shows "matches_hms (h @ CHR '':'' # m @ CHR '':'' # sc @ CHR ''.'' # ms) \<longleftrightarrow> length h = 2"
proof (cases "length h = 2")
  case True
  then obtain h1 h2 where h: "h = [h1, h2]" using length2_shape by blast
  from assms(5) obtain m1 m2 where m: "m = [m1, m2]" using length2_shape by blast
  from assms(6) obtain s1 s2 where sc: "sc = [s1, s2]" using length2_shape by blast
  from assms(7) obtain x1 x2 x3 where ms: "ms = [x1, x2, x3]" using length3_shape by blast
  show ?thesis using assms(1-4) unfolding h m sc ms matches_hms_def by simp
next
  case False
  then show ?thesis using assms(5-7) by (simp add: matches_hms_def)
qed

lemma parse_elapsed_fields:
  assumes "list_all is_digit h" "list_all is_digit m" "list_all is_digit sc"
  shows "parse_elapsed (h @ CHR '':'' # m @ CHR '':'' # sc @ CHR ''.'' # ms) =
         int (((parse_nat h * 60 + parse_nat m) * 60 + parse_nat sc) * 1000 + parse_nat ms)"
  using assms by (simp add: parse_elapsed_def field_upto_digits)

lemma hms_recombine:
  "((n div 1000 div 3600 * 60 + n div 1000 mod 3600 div 60) * 60 + n div 1000 mod 3600 mod 60) * 1000
     + n mod 1000 = (n::nat)"
proof -
  define q where "q = n div 1000"
  define r where "r = q mod 3600"
  have "(q div 3600 * 60 + r div 60) * 60 + r mod 60 = q div 3600 * 3600 + (r div 60 * 60 + r mod 60)"
    by simp
  also have "\<dots> = q div 3600 * 3600 + r" by simp
  also have "\<dots> = q" by (simp add: r_def)
  finally show ?thesis by (simp add: q_def r_def)
qed

text \<open>
  C5 (as amended). For every millisecond count \<open>t \<ge> 0\<close>, parsing \<open>format_time t\<close> back
  gives \<open>t\<close>; the output has the shape of two digits, colon, two digits, colon, two
  digits, dot, three digits exactly when \<open>t\<close> is below 100 hours (360000000 ms). From 100
  hours on the hours field has three or more digits.
\<close>

theorem format_time_pattern_roundtrip:
  "0 \<le> t \<Longrightarrow>
     parse_elapsed (format_time t) = t \<and> (matches_hms (format_time t) \<longleftrightarrow> t < 360000000)"
proof -
  assume t0: "0 \<le> t"
  define n where "n = nat t"
  define h where "h = zfill 2 (dec_digits (n div 1000 div 3600))"
  define m where "m = zfill 2 (dec_digits (n div 1000 mod 3600 div 60))"
  define sc where "sc = zfill 2 (dec_digits (n div 1000 mod 3600 mod 60))"
  define ms where "ms = zfill 3 (dec_digits (n mod 1000))"
  have ft: "format_time t = h @ CHR '':'' # m @ CHR '':'' # sc @ CHR ''.'' # ms"
    using format_time_nonneg [OF t0] by (simp add: n_def h_def m_def sc_def ms_def)
  have dg: "list_all is_digit h" "list_all is_digit m" "list_all is_digit sc" "list_all is_digit ms"
    by (simp_all add: h_def m_def sc_def ms_def zfill_all_digit)
  have len: "length m = 2" "length sc = 2" "length ms = 3"
    by (simp_all add: m_def sc_def ms_def length_zfill2 length_zfill3)
  have "parse_elapsed (format_time t) = int n"
    unfolding ft parse_elapsed_fields [OF dg(1-3)]
    by (simp only: h_def m_def sc_def ms_def parse_nat_zfill hms_recombine)
  then have rt: "parse_elapsed (format_time t) = t" using t0 by (simp add: n_def)
  have "length h = 2 \<longleftrightarrow> n div 1000 div 3600 < 100"
  proof (cases "n div 1000 div 3600 < 100")
    case True
    then show ?thesis by (simp add: h_def length_zfill2)
  next
    case False
    then have "3 \<le> length h" unfolding h_def by (intro length_zfill2_ge100) simp
    with False show ?thesis by simp
  qed
  also have "\<dots> \<longleftrightarrow> n < 360000000"
    by (simp add: div_mult2_eq [symmetric] div_less_iff_less_mult)
  also have "\<dots> \<longleftrightarrow> t < 360000000" using t0 unfolding n_def by linarith
  finally have "matches_hms (format_time t) \<longleftrightarrow> t < 360000000"
    unfolding ft matches_hms_fields [OF dg len] .
  with rt show ?thesis by simp
qed

theorem format_time_pattern_roundtrip_witness:
  "(0::int) \<le> 3661001 \<and> format_time 3661001 = ''01:01:01.001'' \<and>
   parse_elapsed (format_time 3661001) = 3661001 \<and> matches_hms (format_time 3661001)"
proof -
  have v: "format_time 3661001 = ''01:01:01.001''" by code_simp
  have h: "(0::int) \<le> 3661001" by simp
  from format_time_pattern_roundtrip [OF h] v h show ?thesis by simp
qed

theorem format_time_hundred_hours_counterexample:
  "0 \<le> (360000000::int) \<and> format_time 360000000 = ''100:00:00.000'' \<and>
   \<not> matches_hms (format_time 360000000)"
proof -
  have v: "format_time 360000000 = ''100:00:00.000''" by code_simp
  have "\<not> matches_hms ''100:00:00.000''" by (simp add: matches_hms_def)
  with v show ?thesis by simp
qed

section \<open>The recording loop: iterations\<close>

lemma camera_apply_ctl: "camera (apply_ctl x s) = camera s"
  by (cases x) (simp_all add: request_stop_def)

lemma camera_fold_ctl: "camera (fold apply_ctl xs s) = camera s"
  by (induction xs arbitrary: s) (simp_all add: camera_apply_ctl)

lemma stop_flag_fold_ctl: "is_stop_record s \<Longrightarrow> is_stop_record (fold apply_ctl xs s)"
proof (induction xs arbitrary: s)
  case Nil
  then show ?case by simp
next
  case (Cons x xs)
  have "is_stop_record (apply_ctl x s)"
    using Cons.prems by (cases x) (simp_all add: request_stop_def)
  then show ?case using Cons.IH by simp
qed

lemma no_stop_fold_ctl:
  "StopFlag \<notin> set xs \<Longrightarrow> is_stop_record (fold apply_ctl xs s) = is_stop_record s"
proof (induction xs arbitrary: s)
  case Nil
  then show ?case by simp
next
  case (Cons x xs)
  then have "is_stop_record (apply_ctl x s) = is_stop_record s" by (cases x) simp_all
  with Cons show ?case by simp
qed

lemma start_time_mark_as_calls: "fold apply_ctl [MarkOn, AnchorClear] s = start_time_mark s"
  by (simp add: start_time_mark_def)

lemma complete_call_marks:
  "record_mark (fold apply_ctl (xs @ [MarkOn, AnchorClear]) s) \<and>
   start_mark_time (fold apply_ctl (xs @ [MarkOn, AnchorClear]) s) = None"
  by simp

lemma written_emit: "written (emit lv msg w) fn = written w fn"
  by (simp add: written_def emit_def)

lemma videos_emit: "videos (emit lv msg w) = videos w"
  by (simp add: emit_def)

lemma written_writer_write: "written (writer_write fn f w) fn = written w fn @ [f]"
  by (simp add: written_def writer_write_def)

lemma label_frame_camera: "camera (fst (label_frame s tk f)) = camera s"
  by (simp add: label_frame_def Let_def)

lemma label_frame_stop: "is_stop_record (fst (label_frame s tk f)) = is_stop_record s"
  by (simp add: label_frame_def Let_def)

lemma label_frame_some:
  "\<not> clear_mid tk \<Longrightarrow> \<exists>g. snd (label_frame s tk f) = Some g \<and> pixels g = pixels f"
  by (simp add: label_frame_def Let_def draw_timestamp_def)

lemma loop_body_fail:
  "camera s = Some cam \<Longrightarrow> grab tk = None \<Longrightarrow>
     loop_body c (s, w) tk =
       Next (fold apply_ctl (calls tk) s, emit WARNING ''Failed to capture image from camera.'' w)"
  by (simp add: loop_body_def Let_def camera_fold_ctl)

lemma loop_body_frame:
  assumes "camera s = Some cam" "is_opened cam" "grab tk = Some f"
    and "snd (label_frame (fold apply_ctl (calls tk) s) tk f) = Some g"
  shows "loop_body c (s, w) tk =
       (let s2 = fst (label_frame (fold apply_ctl (calls tk) s) tk f);
            w2 = writer_write (lc_filename c) g w
        in if is_stop_record s2 \<or> lc_timeout c \<le> t_check tk - lc_start_time c
           then Break (s2, emit INFO (''Video saved as: '' @ lc_saved_as c @ ''.avi'')
                             (emit INFO ''Stop record'' w2))
           else Next (s2, w2))"
proof -
  obtain s2 x where lf: "label_frame (fold apply_ctl (calls tk) s) tk f = (s2, x)"
    by (cases "label_frame (fold apply_ctl (calls tk) s) tk f")
  with assms(4) have x: "x = Some g" by simp
  show ?thesis
    using assms(1-3) by (simp add: loop_body_def Let_def camera_fold_ctl lf x)
qed

lemma loop_body_type_error:
  assumes "camera s = Some cam" "is_opened cam" "grab tk = Some f"
    and "snd (label_frame (fold apply_ctl (calls tk) s) tk f) = None"
  shows "loop_body c (s, w) tk =
       Break (fst (label_frame (fold apply_ctl (calls tk) s) tk f),
              emit ERROR ''Error capturing and saving image: TypeError'' w)"
proof -
  obtain s2 x where lf: "label_frame (fold apply_ctl (calls tk) s) tk f = (s2, x)"
    by (cases "label_frame (fold apply_ctl (calls tk) s) tk f")
  with assms(4) have x: "x = None" by simp
  show ?thesis
    using assms(1-3) by (simp add: loop_body_def Let_def camera_fold_ctl lf x)
qed

text \<open>
  The exit check is what ends an iteration that has written its frame: the loop is left
  exactly when the stop flag is set or the timeout is reached.
\<close>

lemma loop_body_break_iff:
  assumes "camera s = Some cam" "is_opened cam" "grab tk = Some f" "\<not> clear_mid tk"
  shows "(\<exists>st. loop_body c (s, w) tk = Break st) \<longleftrightarrow>
         is_stop_record (fold apply_ctl (calls tk) s) \<or> lc_timeout c \<le> t_check tk - lc_start_time c"
proof -
  obtain g where g: "snd (label_frame (fold apply_ctl (calls tk) s) tk f) = Some g"
    using label_frame_some [OF assms(4)] by blast
  show ?thesis
    by (simp add: loop_body_frame [OF assms(1-3) g] Let_def label_frame_stop)
qed

lemma record_loop_fail_run:
  "camera s = Some cam \<Longrightarrow> list_all (\<lambda>tk. grab tk = None) tks \<Longrightarrow>
     record_loop c (s, w) tks =
       Pending (fold (\<lambda>tk. fold apply_ctl (calls tk)) tks s,
                w\<lparr>log := log w @ replicate (length tks) (WARNING, ''Failed to capture image from camera.'')\<rparr>)"
proof (induction tks arbitrary: s w)
  case Nil
  then show ?case by simp
next
  case (Cons tk tks)
  from Cons.prems have g: "grab tk = None" and rest: "list_all (\<lambda>tk. grab tk = None) tks" by simp_all
  have cam': "camera (fold apply_ctl (calls tk) s) = Some cam"
    using Cons.prems(1) by (simp add: camera_fold_ctl)
  show ?case
    by (simp add: loop_body_fail [OF Cons.prems(1) g] Cons.IH [OF cam' rest] emit_def
        replicate_app_Cons_same)
qed

lemmas sample_defs = c0_def s0_def w0_def tick_fail_def tick_ok_def init_def cam0_def fr_def
  dev0_def env0_def

lemmas loop_defs = loop_body_def emit_def label_frame_def writer_write_def written_def
  request_stop_def draw_timestamp_def

text \<open>
  C1 (as amended). When \<open>camera.read()\<close> fails inside the recording loop, with no stop
  requested and the timeout not reached, the iteration logs a warning and writes nothing;
  the loop goes on with the next read. The frames already written to the output are
  untouched.
\<close>

theorem read_failure_warns_and_retries:
  assumes "camera s = Some cam" "grab tk = None"
    and "\<not> is_stop_record s" "StopFlag \<notin> set (calls tk)"
    and "t_check tk - lc_start_time c < lc_timeout c"
  shows "record_loop c (s, w) (tk # tks) =
           record_loop c (fold apply_ctl (calls tk) s,
                          emit WARNING ''Failed to capture image from camera.'' w) tks \<and>
         videos (emit WARNING ''Failed to capture image from camera.'' w) = videos w \<and>
         \<not> is_stop_record (fold apply_ctl (calls tk) s)"
  using assms by (simp add: loop_body_fail videos_emit no_stop_fold_ctl)

theorem read_failure_warns_and_retries_witness:
  "camera s0 = Some cam0 \<and> grab tick_fail = None \<and> \<not> is_stop_record s0 \<and>
   StopFlag \<notin> set (calls tick_fail) \<and> t_check tick_fail - lc_start_time c0 < lc_timeout c0 \<and>
   record_loop c0 (s0, w0) [tick_fail, tick_ok 7 160] =
     record_loop c0 (s0, emit WARNING ''Failed to capture image from camera.'' w0) [tick_ok 7 160]"
proof -
  have h1: "camera s0 = Some cam0" by (simp add: sample_defs)
  have h2: "grab tick_fail = None" by (simp add: sample_defs)
  have h3: "\<not> is_stop_record s0" by (simp add: sample_defs)
  have h4: "StopFlag \<notin> set (calls tick_fail)" by (simp add: sample_defs)
  have h5: "t_check tick_fail - lc_start_time c0 < lc_timeout c0" by (simp add: sample_defs)
  have h6: "fold apply_ctl (calls tick_fail) s0 = s0" by (simp add: tick_fail_def)
  from read_failure_warns_and_retries [OF h1 h2 h3 h4 h5, of w0 "[tick_ok 7 160]"]
    h1 h2 h3 h4 h5 h6
  show ?thesis by simp
qed

text \<open>
  C1 as stated fails: after a failed read the loop has not ended, and when the next read
  delivers a frame that frame is written and the loop ends then (on the timeout).
\<close>

theorem read_failure_not_terminal_counterexample:
  "grab tick_fail = None \<and>
   \<not> is_done (record_loop c0 (s0, w0) [tick_fail]) \<and>
   is_done (record_loop c0 (s0, w0) [tick_fail, tick_ok 7 160]) \<and>
   written (snd (run_state (record_loop c0 (s0, w0) [tick_fail, tick_ok 7 160]))) (lc_filename c0)
     = [fr 7]"
  by (simp add: sample_defs loop_defs)

text \<open>
  C2, at the failing input. The stop flag is set and every read fails: after any number
  \<open>n\<close> of iterations the loop is still running. The exit check sits in the branch of a
  successful read only.
\<close>

theorem stop_flag_ignored_while_reads_fail:
  "record_loop c0 (request_stop s0, w0) (replicate n tick_fail) =
     Pending (request_stop s0,
              w0\<lparr>log := replicate n (WARNING, ''Failed to capture image from camera.'')\<rparr>)"
proof -
  have cam: "camera (request_stop s0) = Some cam0" by (simp add: sample_defs request_stop_def)
  have all: "list_all (\<lambda>tk. grab tk = None) (replicate n tick_fail)"
    by (simp add: list_all_iff tick_fail_def)
  have st: "fold (\<lambda>tk. fold apply_ctl (calls tk)) (replicate n tick_fail) s = s" for s
    by (induction n) (simp_all add: tick_fail_def)
  show ?thesis
    unfolding record_loop_fail_run [OF cam all] st by (simp add: w0_def)
qed

text \<open>
  C3 (as amended). At loop entry of every call of \<open>start_record\<close> (and where the call
  ends before the loop), the stop flag and the overlay switch \<open>record_mark\<close> are false;
  the anchor \<open>start_mark_time\<close> is what it was before the call.
\<close>

theorem start_record_entry_resets:
  "\<not> is_stop_record (fst (run_state (start_record path name cnt timeout (env\<lparr>ticks := []\<rparr>) (s, w)))) \<and>
   \<not> record_mark (fst (run_state (start_record path name cnt timeout (env\<lparr>ticks := []\<rparr>) (s, w)))) \<and>
   start_mark_time (fst (run_state (start_record path name cnt timeout (env\<lparr>ticks := []\<rparr>) (s, w))))
     = start_mark_time s"
  by (simp add: start_record_def start_record_reset_def ensure_camera_def open_record_camera_def
      Let_def split: option.splits prod.splits)

text \<open>
  C3 as stated fails: an anchor left from an earlier session is still there when the loop
  of the next call is entered.
\<close>

theorem start_record_keeps_anchor_counterexample:
  "\<not> is_done (start_record (Some ''out'') (Some ''t'') (Some 1) 60 env0
            (s0\<lparr>start_mark_time := Some 5\<rparr>, w0)) \<and>
   start_mark_time (fst (run_state (start_record (Some ''out'') (Some ''t'') (Some 1) 60 env0
            (s0\<lparr>start_mark_time := Some 5\<rparr>, w0)))) = Some 5"
  by (simp add: start_record_def start_record_reset_def ensure_camera_def sample_defs Let_def)

section \<open>The overlay anchor\<close>

lemma zfill3_lt100: "n < 100 \<Longrightarrow> zfill 3 (dec_digits n) = CHR ''0'' # zfill 2 (dec_digits n)"
proof (cases "n < 10")
  case True
  then show ?thesis by (simp add: zfill_def length_dec_digits_lt10 numeral_3_eq_3 numeral_2_eq_2)
next
  case False
  assume "n < 100"
  with False show ?thesis by (simp add: zfill_def length_dec_digits_lt100 numeral_3_eq_3)
qed

lemma zfill2_zero: "zfill 2 (dec_digits 0) = ''00''"
  by code_simp

lemma format_time_lt100:
  assumes "0 \<le> k" "k < 100"
  shows "format_time k = ''00:00:00.0'' @ zfill 2 (dec_digits (nat k))"
proof -
  have n: "nat k < 100" using assms by simp
  then have z: "nat k div 1000 = 0" "nat k mod 1000 = nat k" by simp_all
  show ?thesis
    unfolding format_time_nonneg [OF assms(1)] z
    by (simp add: zfill2_zero zfill3_lt100 [OF n])
qed

lemma format_time_lt100_shape:
  assumes "0 \<le> k" "k < 100"
  shows "take 10 (format_time k) = ''00:00:00.0'' \<and> matches_hms (format_time k)"
proof -
  have n: "nat k < 100" using assms by simp
  obtain a b where ab: "zfill 2 (dec_digits (nat k)) = [a, b]"
    using length2_shape [OF length_zfill2 [OF n]] by blast
  have "list_all is_digit [a, b]" using zfill_all_digit [of 2 "nat k"] by (simp add: ab)
  then show ?thesis
    unfolding format_time_lt100 [OF assms] ab by (simp add: matches_hms_def is_digit_zero)
qed

lemma py_int_millis:
  assumes "0 \<le> d" "d < 1 / 10"
  shows "0 \<le> py_int (d * 1000) \<and> py_int (d * 1000) < 100"
proof -
  have "0 \<le> d * 1000" using assms by simp
  moreover have "d * 1000 < 100" using assms by simp
  ultimately show ?thesis by (simp add: py_int_def floor_less_iff)
qed

text \<open>
  The path without interference. Both assignments of \<open>start_time_mark\<close> have landed before
  the iteration reads \<open>record_mark\<close>, and the anchor is not cleared again under the overlay
  block. Then the anchor becomes the iteration's own clock reading, the frame is written
  with one more text drawn on it at (10, 30), and that text is the time between the
  iteration's two consecutive clock readings: \<open>00:00:00.0xx\<close> when they are less than
  100 ms apart.
\<close>

lemma overlay_label_after_complete_call:
  assumes "camera s = Some cam" "is_opened cam" "grab tk = Some f" "\<not> clear_mid tk"
    and "record_mark (fold apply_ctl (calls tk) s)"
    and "start_mark_time (fold apply_ctl (calls tk) s) = None"
    and "0 \<le> t_stamp tk - t_anchor tk" "t_stamp tk - t_anchor tk < 1 / 10"
  shows "start_mark_time (fst (step_state (loop_body c (s, w) tk))) = Some (t_anchor tk) \<and>
         written (snd (step_state (loop_body c (s, w) tk))) (lc_filename c) =
           written w (lc_filename c) @
             [f\<lparr>stamps := stamps f @
                  [(format_time (py_int ((t_stamp tk - t_anchor tk) * 1000)), 10, 30)]\<rparr>] \<and>
         take 10 (format_time (py_int ((t_stamp tk - t_anchor tk) * 1000))) = ''00:00:00.0'' \<and>
         matches_hms (format_time (py_int ((t_stamp tk - t_anchor tk) * 1000)))"
proof -
  define s1 where "s1 = fold apply_ctl (calls tk) s"
  define g where
    "g = f\<lparr>stamps := stamps f @
            [(format_time (py_int ((t_stamp tk - t_anchor tk) * 1000)), 10, 30)]\<rparr>"
  have lf: "label_frame s1 tk f = (s1\<lparr>start_mark_time := Some (t_anchor tk)\<rparr>, Some g)"
    using assms(4-6) by (simp add: label_frame_def Let_def s1_def g_def draw_timestamp_def)
  then have sg: "snd (label_frame (fold apply_ctl (calls tk) s) tk f) = Some g"
    by (simp add: s1_def)
  have a: "start_mark_time (fst (step_state (loop_body c (s, w) tk))) = Some (t_anchor tk)"
    unfolding loop_body_frame [OF assms(1-3) sg] Let_def s1_def [symmetric] lf by simp
  have b: "written (snd (step_state (loop_body c (s, w) tk))) (lc_filename c) =
           written w (lc_filename c) @ [g]"
    unfolding loop_body_frame [OF assms(1-3) sg] Let_def s1_def [symmetric] lf
    by (simp add: written_emit written_writer_write)
  from py_int_millis [OF assms(7,8)] format_time_lt100_shape a b show ?thesis
    unfolding g_def by blast
qed

text \<open>
  The same lack of synchronisation, second placement: line 307 lands between lines 278 and
  279 of the first marked iteration. The subtraction raises, the handler logs, the
  recording is over and the frame is not written.
\<close>

lemma anchor_cleared_under_overlay_ends_recording:
  "record_loop c0 (s0, w0) [(tick_ok 7 105)\<lparr>calls := [MarkOn], clear_mid := True\<rparr>, tick_ok 8 106] =
     Done (s0\<lparr>record_mark := True\<rparr>,
           w0\<lparr>log := [(ERROR, ''Error capturing and saving image: TypeError'')]\<rparr>)"
  by (simp add: sample_defs loop_defs)

text \<open>
  C4, at the failing input. The anchor still holds 3 from an earlier use of the overlay
  (\<open>start_record\<close> does not clear it) and the overlay is off. The controlling thread calls
  \<open>start_time_mark\<close>: line 306 lands, the loop runs one whole iteration with a frame at
  clock 105, then line 307 lands and the next iteration runs at clock 106. The first frame
  that carries a label reads \<open>00:01:42.000\<close>, the 102 seconds since the old anchor; only the
  second one starts from zero.
\<close>

theorem first_label_from_stale_anchor:
  "\<not> record_mark (s0\<lparr>start_mark_time := Some 3\<rparr>) \<and>
   \<not> is_done (record_loop c0 (s0\<lparr>start_mark_time := Some 3\<rparr>, w0)
      [(tick_ok 7 105)\<lparr>calls := [MarkOn]\<rparr>, (tick_ok 8 106)\<lparr>calls := [AnchorClear]\<rparr>]) \<and>
   map stamps (written (snd (run_state (record_loop c0 (s0\<lparr>start_mark_time := Some 3\<rparr>, w0)
      [(tick_ok 7 105)\<lparr>calls := [MarkOn]\<rparr>, (tick_ok 8 106)\<lparr>calls := [AnchorClear]\<rparr>])))
      (lc_filename c0)) =
     [[(''00:01:42.000'', 10, 30)], [(''00:00:00.000'', 10, 30)]]"
proof -
  have p1: "py_int 102000 = 102000" and p0: "py_int 0 = 0" by (simp_all add: py_int_def)
  have v1: "format_time 102000 = ''00:01:42.000''" by code_simp
  have v0: "format_time 0 = ''00:00:00.000''" by code_simp
  show ?thesis by (simp add: sample_defs loop_defs p1 p0 v1 v0)
qed

section \<open>Leaving the loop\<close>

text \<open>
  The order inside an iteration that reads a frame: the frame is written, then the exit
  check is made. With no stop requested, after any iterations \<open>pre\<close> that keep the loop
  running, the first iteration \<open>tk\<close> that delivers a frame with the timeout reached at
  its exit check ends the loop; its frame is the last one in the output and every frame
  read before it is there as well.
\<close>

lemma record_loop_crossing:
  assumes "camera s = Some cam" "is_opened cam" "\<not> is_stop_record s"
    and "list_all (keeps_running c) pre"
    and "StopFlag \<notin> set (calls tk)" "\<not> clear_mid tk" "grab tk = Some f"
    and "lc_timeout c \<le> t_check tk - lc_start_time c"
  shows "\<exists>s' w'. record_loop c (s, w) (pre @ tk # post) = Done (s', w') \<and>
           written w' (lc_filename c) \<noteq> [] \<and>
           pixels (last (written w' (lc_filename c))) = pixels f \<and>
           length (written w' (lc_filename c)) =
             length (written w (lc_filename c)) + length (filter (\<lambda>k. grab k \<noteq> None) pre) + 1"
  using assms(1,3,4)
proof (induction pre arbitrary: s w)
  case Nil
  obtain g where g: "snd (label_frame (fold apply_ctl (calls tk) s) tk f) = Some g"
    and pg: "pixels g = pixels f"
    using label_frame_some [OF assms(6)] by blast
  show ?case
    by (simp add: loop_body_frame [OF Nil(1) assms(2) assms(7) g] Let_def assms(8)
        written_emit written_writer_write pg)
next
  case (Cons k pre)
  from Cons.prems(3) have kk: "keeps_running c k" and rest: "list_all (keeps_running c) pre"
    by simp_all
  from kk have k: "StopFlag \<notin> set (calls k)" and km: "\<not> clear_mid k"
    and kr: "grab k = None \<or> t_check k - lc_start_time c < lc_timeout c"
    by (simp_all add: keeps_running_def)
  define s1 where "s1 = fold apply_ctl (calls k) s"
  have c1: "camera s1 = Some cam" using Cons.prems(1) by (simp add: s1_def camera_fold_ctl)
  have n1: "\<not> is_stop_record s1" using Cons.prems(2) k by (simp add: s1_def no_stop_fold_ctl)
  show ?case
  proof (cases "grab k")
    case None
    have step: "loop_body c (s, w) k =
        Next (s1, emit WARNING ''Failed to capture image from camera.'' w)"
      using loop_body_fail [OF Cons.prems(1) None] by (simp add: s1_def)
    from Cons.IH [OF c1 n1 rest, of "emit WARNING ''Failed to capture image from camera.'' w"]
    show ?thesis by (simp add: step None written_emit)
  next
    case (Some h)
    with kr have lt: "t_check k - lc_start_time c < lc_timeout c" by simp
    obtain g where g: "snd (label_frame s1 k h) = Some g"
      using label_frame_some [OF km] by blast
    define s2 where "s2 = fst (label_frame s1 k h)"
    define w2 where "w2 = writer_write (lc_filename c) g w"
    have c2: "camera s2 = Some cam" using c1 by (simp add: s2_def label_frame_camera)
    have n2: "\<not> is_stop_record s2" using n1 by (simp add: s2_def label_frame_stop)
    have step: "loop_body c (s, w) k = Next (s2, w2)"
      using n2 lt loop_body_frame [OF Cons.prems(1) assms(2) Some, of g c w] g
      by (simp add: Let_def s1_def [symmetric] s2_def [symmetric] w2_def [symmetric])
    have wl: "length (written w2 (lc_filename c)) = length (written w (lc_filename c)) + 1"
      by (simp add: w2_def written_writer_write)
    from Cons.IH [OF c2 n2 rest, of w2]
    show ?thesis by (simp add: step Some wl)
  qed
qed

text \<open>
  C6, at the failing input. No stop is requested and the clock is 900 seconds past the
  start with a timeout of 60, but every read fails: after any number \<open>n\<close> of iterations
  the loop is still running. The timeout is tested in the branch of a successful read
  only, the defect of C2.
\<close>

theorem timeout_ignored_while_reads_fail:
  "\<not> is_stop_record s0 \<and>
   lc_timeout c0 \<le> t_check (tick_fail\<lparr>t_check := 1000\<rparr>) - lc_start_time c0 \<and>
   record_loop c0 (s0, w0) (replicate n (tick_fail\<lparr>t_check := 1000\<rparr>)) =
     Pending (s0, w0\<lparr>log := replicate n (WARNING, ''Failed to capture image from camera.'')\<rparr>)"
proof -
  have cam: "camera s0 = Some cam0" by (simp add: sample_defs)
  have all: "list_all (\<lambda>tk. grab tk = None) (replicate n (tick_fail\<lparr>t_check := 1000\<rparr>))"
    by (simp add: list_all_iff tick_fail_def)
  have st: "fold (\<lambda>tk. fold apply_ctl (calls tk)) (replicate n (tick_fail\<lparr>t_check := 1000\<rparr>)) s = s"
    for s by (induction n) (simp_all add: tick_fail_def)
  have r: "record_loop c0 (s0, w0) (replicate n (tick_fail\<lparr>t_check := 1000\<rparr>)) =
     Pending (s0, w0\<lparr>log := replicate n (WARNING, ''Failed to capture image from camera.'')\<rparr>)"
    unfolding record_loop_fail_run [OF cam all] st by (simp add: w0_def)
  have "\<not> is_stop_record s0" by (simp add: sample_defs)
  moreover have "lc_timeout c0 \<le> t_check (tick_fail\<lparr>t_check := 1000\<rparr>) - lc_start_time c0"
    by (simp add: sample_defs)
  ultimately show ?thesis using r by simp
qed

text \<open>
  C10, at the failing input. \<open>stop_record\<close> sets the stop flag before it tries to join, so
  the flag is set afterwards whatever \<open>join\<close> did, for every session. But when \<open>join\<close>
  raised on an invalid thread object and every read of the camera fails, the loop is
  still running after any number \<open>n\<close> of iterations: it never reads the flag. This is the
  defect of C2.
\<close>

theorem stop_flag_set_but_unseen_while_reads_fail:
  "is_stop_record (fst (stop_record target (s, w))) \<and>
   record_loop c0 (stop_record (JoinAttributeError ''no join'') (s0, w0)) (replicate n tick_fail) =
     Pending (request_stop s0,
              w0\<lparr>log := (ERROR, ''Invalid thread object: no join'')
                          # replicate n (WARNING, ''Failed to capture image from camera.'')\<rparr>)"
proof -
  have flag: "is_stop_record (fst (stop_record target (s, w)))"
    by (cases target) (simp_all add: stop_record_def Let_def request_stop_def)
  have v: "stop_record (JoinAttributeError ''no join'') (s0, w0) =
     (request_stop s0, w0\<lparr>log := [(ERROR, ''Invalid thread object: no join'')]\<rparr>)"
    by (simp add: stop_record_def emit_def w0_def)
  have cam: "camera (request_stop s0) = Some cam0" by (simp add: sample_defs request_stop_def)
  have all: "list_all (\<lambda>tk. grab tk = None) (replicate n tick_fail)"
    by (simp add: list_all_iff tick_fail_def)
  have st: "fold (\<lambda>tk. fold apply_ctl (calls tk)) (replicate n tick_fail) s = s" for s
    by (induction n) (simp_all add: tick_fail_def)
  have "record_loop c0 (stop_record (JoinAttributeError ''no join'') (s0, w0)) (replicate n tick_fail) =
     Pending (request_stop s0,
              w0\<lparr>log := (ERROR, ''Invalid thread object: no join'')
                          # replicate n (WARNING, ''Failed to capture image from camera.'')\<rparr>)"
    unfolding v record_loop_fail_run [OF cam all] st by (simp add: w0_def)
  with flag show ?thesis by simp
qed

section \<open>Frame extraction\<close>

lemma slice_frames_enumerate:
  "slice_frames sub name n frames imgs =
     (imgs @ map (\<lambda>(i, f). (frame_path sub name i, f)) (enumerate n frames), n + length frames)"
  by (induction frames arbitrary: n imgs) simp_all

lemma map_enumerate_nth:
  "map (\<lambda>(i, f). g i f) (enumerate 0 xs) = map (\<lambda>i. g i (xs ! i)) [0..<length xs]"
  by (rule nth_equalityI) (simp_all add: nth_enumerate_eq)

lemma slice_frames_indexed:
  "slice_frames sub name 0 frames imgs =
     (imgs @ map (\<lambda>i. (frame_path sub name i, frames ! i)) [0..<length frames], length frames)"
  unfolding slice_frames_enumerate
  using map_enumerate_nth [of "\<lambda>i f. (frame_path sub name i, f)" frames] by simp

text \<open>
  C7 (as amended). For a container that opens and holds \<open>N\<close> frames, \<open>video_slice\<close>
  writes exactly \<open>N\<close> images, the \<open>n\<close>-th frame under the name with index \<open>n\<close>, for
  \<open>n\<close> from 0 to \<open>N - 1\<close> in this order, ends at the end of the stream without an error,
  releases the reader, and returns \<open>None\<close>.
\<close>

theorem video_slice_numbers_frames:
  assumes "save_path s = Some sp" "record_name s = Some name" "filename s = Some fn"
    and "videos w fn = Some frames"
  shows "fst (video_slice (s, w)) = Returned PyNone \<and>
         images (snd (video_slice (s, w))) =
           images w @ map (\<lambda>n. (frame_path (path_join sp name) name n, frames ! n))
                          [0..<length frames] \<and>
         reader_releases (snd (video_slice (s, w))) = reader_releases w + 1"
  using assms by (simp add: video_slice_def Let_def slice_frames_indexed emit_def)

theorem video_slice_numbers_frames_witness:
  "save_path s_rec = Some ''out'' \<and> record_name s_rec = Some ''t_1'' \<and>
   filename s_rec = Some ''out/t_1.avi'' \<and> videos w_rec ''out/t_1.avi'' = Some [fr 0, fr 1] \<and>
   fst (video_slice (s_rec, w_rec)) = Returned PyNone \<and>
   images (snd (video_slice (s_rec, w_rec))) =
     [(''out/t_1/t_1_frame_count_0.jpg'', fr 0), (''out/t_1/t_1_frame_count_1.jpg'', fr 1)]"
proof -
  have h1: "save_path s_rec = Some ''out''" by (simp add: s_rec_def)
  have h2: "record_name s_rec = Some ''t_1''" by (simp add: s_rec_def)
  have h3: "filename s_rec = Some ''out/t_1.avi''" by (simp add: s_rec_def)
  have h4: "videos w_rec ''out/t_1.avi'' = Some [fr 0, fr 1]" by (simp add: w_rec_def)
  have m: "map (\<lambda>n. (frame_path (path_join ''out'' ''t_1'') ''t_1'' n, [fr 0, fr 1] ! n))
              [0..<length [fr 0, fr 1]] =
            [(''out/t_1/t_1_frame_count_0.jpg'', fr 0), (''out/t_1/t_1_frame_count_1.jpg'', fr 1)]"
    by code_simp
  have i: "images w_rec = []" by (simp add: w_rec_def w0_def)
  note r = video_slice_numbers_frames [OF h1 h2 h3 h4]
  from r have a: "fst (video_slice (s_rec, w_rec)) = Returned PyNone" by (rule conjunct1)
  from r have "images (snd (video_slice (s_rec, w_rec))) =
      images w_rec @ map (\<lambda>n. (frame_path (path_join ''out'' ''t_1'') ''t_1'' n, [fr 0, fr 1] ! n))
              [0..<length [fr 0, fr 1]]"
    by blast
  then have b: "images (snd (video_slice (s_rec, w_rec))) =
     [(''out/t_1/t_1_frame_count_0.jpg'', fr 0), (''out/t_1/t_1_frame_count_1.jpg'', fr 1)]"
    unfolding m i by simp
  from h1 h2 h3 h4 a b show ?thesis by blast
qed

text \<open>
  C7 as stated fails: on a container of two frames the call does not return 2.
\<close>

theorem video_slice_returns_none_counterexample:
  "videos w_rec ''out/t_1.avi'' = Some [fr 0, fr 1] \<and>
   fst (video_slice (s_rec, w_rec)) = Returned PyNone \<and>
   fst (video_slice (s_rec, w_rec)) \<noteq> Returned (PyInt 2)"
  by (simp add: video_slice_def s_rec_def w_rec_def w0_def Let_def split: prod.splits)

text \<open>
  C8 (as amended). When the container cannot be opened, \<open>video_slice\<close> logs the error and
  leaves through \<open>sys.exit(1)\<close>, which the handler for \<open>Exception\<close> does not catch; the
  reader is released, no image is written and no container is touched. The directory for
  the images exists afterwards: it is created before the container is opened.
\<close>

theorem video_slice_unopenable_exits:
  assumes "save_path s = Some sp" "record_name s = Some name" "filename s = Some fn"
    and "videos w fn = None"
  shows "fst (video_slice (s, w)) = SystemExit 1 \<and>
         images (snd (video_slice (s, w))) = images w \<and>
         videos (snd (video_slice (s, w))) = videos w \<and>
         log (snd (video_slice (s, w))) = log w @ [(ERROR, ''Failed to open video file.'')] \<and>
         reader_releases (snd (video_slice (s, w))) = reader_releases w + 1 \<and>
         set (dirs (snd (video_slice (s, w)))) = insert (path_join sp name) (set (dirs w))"
  using assms by (auto simp: video_slice_def Let_def emit_def)

theorem video_slice_unopenable_exits_witness:
  "save_path s_rec = Some ''out'' \<and> record_name s_rec = Some ''t_1'' \<and>
   filename s_rec = Some ''out/t_1.avi'' \<and> videos w0 ''out/t_1.avi'' = None \<and>
   fst (video_slice (s_rec, w0)) = SystemExit 1 \<and>
   images (snd (video_slice (s_rec, w0))) = []"
proof -
  have h1: "save_path s_rec = Some ''out''" by (simp add: s_rec_def)
  have h2: "record_name s_rec = Some ''t_1''" by (simp add: s_rec_def)
  have h3: "filename s_rec = Some ''out/t_1.avi''" by (simp add: s_rec_def)
  have h4: "videos w0 ''out/t_1.avi'' = None" by (simp add: w0_def)
  have i: "images w0 = []" by (simp add: w0_def)
  from video_slice_unopenable_exits [OF h1 h2 h3 h4] h1 h2 h3 h4 i
  show ?thesis by simp
qed

text \<open>
  C8 as stated fails: the call ends in \<open>SystemExit\<close> instead of returning an error, and
  the directory \<open>out/t_1\<close> has been created.
\<close>

theorem video_slice_unopenable_counterexample:
  "videos w0 ''out/t_1.avi'' = None \<and>
   video_slice (s_rec, w0) =
     (SystemExit 1,
      w0\<lparr>log := [(ERROR, ''Failed to open video file.'')], dirs := [''out'', ''out/t_1''],
         reader_releases := 1\<rparr>) \<and>
   dirs (snd (video_slice (s_rec, w0))) \<noteq> dirs w0"
  by (simp add: video_slice_def s_rec_def w0_def Let_def emit_def path_join_def)

section \<open>Releasing the camera\<close>

text \<open>
  C9 (as amended). \<open>release_camera\<close> does nothing when the camera attribute is \<open>None\<close>.
  When it holds a handle, every call (a second one and the one from \<open>__del__\<close> alike) calls
  \<open>release()\<close> on that handle again and logs again; the attribute keeps the handle.
\<close>

theorem release_camera_twice:
  "(camera s = None \<longrightarrow> release_camera (s, w) = (s, w)) \<and>
   (camera s = Some cam \<longrightarrow>
      release_camera (release_camera (s, w)) =
        (s\<lparr>camera := Some (cam\<lparr>is_opened := False, release_count := release_count cam + 2\<rparr>)\<rparr>,
         emit INFO ''Camera resources have been released.''
           (emit INFO ''Camera resources have been released.'' w)) \<and>
      del (release_camera (s, w)) = release_camera (release_camera (s, w)))"
  by (simp add: release_camera_def del_def)

theorem release_camera_twice_witness:
  "camera s0 = Some cam0 \<and> camera (init 0 (1280, 720) 60 False False) = None \<and>
   release_camera (init 0 (1280, 720) 60 False False, w0) = (init 0 (1280, 720) 60 False False, w0) \<and>
   release_camera (release_camera (s0, w0)) =
     (s0\<lparr>camera := Some \<lparr>is_opened = False, release_count = 2\<rparr>\<rparr>,
      w0\<lparr>log := [(INFO, ''Camera resources have been released.''),
                 (INFO, ''Camera resources have been released.'')]\<rparr>)"
proof -
  have h1: "camera s0 = Some cam0" by (simp add: sample_defs)
  have h2: "camera (init 0 (1280, 720) 60 False False) = None" by (simp add: init_def)
  from release_camera_twice [of s0 w0 cam0] release_camera_twice [of "init 0 (1280, 720) 60 False False" w0]
    h1 h2
  show ?thesis by (simp add: cam0_def emit_def w0_def)
qed

text \<open>
  C9 as stated fails: the second call is not a no-op, the handle is released a second time.
\<close>

theorem release_camera_second_call_counterexample:
  "release_camera (release_camera (s0, w0)) \<noteq> release_camera (s0, w0) \<and>
   map_option release_count (camera (fst (release_camera (s0, w0)))) = Some 1 \<and>
   map_option release_count (camera (fst (release_camera (release_camera (s0, w0))))) = Some 2"
  by (simp add: release_camera_def sample_defs emit_def)

end
